theory Spec2Isabelle
  imports Main "HOL-Library.Word"
begin

unbundle bit_operations_syntax

section \<open>Remote Copy Framer (client.go: Copy, CopyWithFileMode, CopyFile and the private copy function)\<close>

text \<open>
  Go errors are modelled by their message; \<open>None\<close> is Go's \<open>nil\<close> error.
  Byte strings are \<open>char list\<close> (an Isabelle \<open>char\<close> is one byte).
\<close>

type_synonym err = string

subsection \<open>The header line, as fmt.Sprintf prints it\<close>

text \<open>
  Go's integer formatting (\<open>fmt.fmtInteger\<close>) picks each digit from the table
  \<open>ldigits\<close>, least significant digit first, into a buffer that is read back most
  significant digit first. The value 0 is the single digit \<open>0\<close>. Go calls it with
  the bases 8 and 10 here; the test \<open>b < 2\<close> only makes the recursion end for every
  argument.
\<close>

definition ldigits :: string where
  "ldigits = ''0123456789abcdefx''"

definition digit_char :: "nat \<Rightarrow> char" where
  "digit_char d = ldigits ! d"

function fmt_base :: "nat \<Rightarrow> nat \<Rightarrow> string" where
  "fmt_base b n =
     (if n < b \<or> b < 2 then [digit_char n]
      else fmt_base b (n div b) @ [digit_char (n mod b)])"
  by pat_completeness auto
termination
  by (relation "measure snd") auto

declare fmt_base.simps [simp del]

text \<open>
  The verb \<open>%#o\<close> on an \<open>os.FileMode\<close> (a \<open>uint32\<close>; the verb \<open>o\<close> does not
  go through the type's \<open>String\<close> method): base 8, and the flag \<open>#\<close> puts one
  \<open>0\<close> in front unless the first digit is already \<open>0\<close>.
\<close>

definition fmt_sharp_o :: "32 word \<Rightarrow> string" where
  "fmt_sharp_o m =
     (let ds = fmt_base 8 (unat m)
      in if hd ds \<noteq> CHR ''0'' then CHR ''0'' # ds else ds)"

text \<open>The verb \<open>%d\<close> on an \<open>int64\<close>, given by its value.\<close>

definition fmt_d :: "int \<Rightarrow> string" where
  "fmt_d i = (if i < 0 then CHR ''-'' # fmt_base 10 (nat (- i)) else fmt_base 10 (nat i))"

definition header_line :: "32 word \<Rightarrow> int \<Rightarrow> string \<Rightarrow> char list" where
  "header_line mode sz fileName =
     ''C'' @ fmt_sharp_o mode @ '' '' @ fmt_d sz @ '' '' @ fileName @ [CHR 0x0A]"

subsection \<open>The session's input stream (io.WriteCloser) and the payload source (io.Reader)\<close>

text \<open>
  The write side of the session as \<open>_copy\<close> sees it: the bytes the transport has
  accepted so far, whether \<open>Close\<close> was called, and what the transport will answer.
  \<open>wfaults\<close> scripts the following calls of \<open>Write\<close>, one entry each: \<open>None\<close>
  (and every call past the end of the script) accepts all the bytes; \<open>Some (k, e)\<close>
  accepts at most the first \<open>k\<close> bytes and returns the error \<open>e\<close>. \<open>cfault\<close> is what
  \<open>Close\<close> returns.
\<close>

record pipe =
  sent :: "char list"
  closed :: bool
  wfaults :: "(nat \<times> err) option list"
  cfault :: "err option"

definition pipe_Write :: "char list \<Rightarrow> pipe \<Rightarrow> err option \<times> pipe" where
  "pipe_Write bs p =
     (case wfaults p of
        [] \<Rightarrow> (None, p\<lparr>sent := sent p @ bs\<rparr>)
      | None # fs \<Rightarrow> (None, p\<lparr>sent := sent p @ bs, wfaults := fs\<rparr>)
      | Some (k, e) # fs \<Rightarrow> (Some e, p\<lparr>sent := sent p @ take k bs, wfaults := fs\<rparr>))"

definition pipe_Close :: "pipe \<Rightarrow> err option \<times> pipe" where
  "pipe_Close p = (cfault p, p\<lparr>closed := True\<rparr>)"

text \<open>
  An \<open>io.Reader\<close>: the chunks its successive reads deliver, then end of file
  (\<open>rfault = None\<close>) or a read error.
\<close>

record reader =
  chunks :: "char list list"
  rfault :: "err option"

text \<open>
  \<open>io.Copy(w, contents)\<close>: every non-empty chunk is written with one \<open>Write\<close>; the
  first write error stops the copy and is returned; after the last chunk the read
  error, if any, is returned (end of file is not an error). The byte count that
  \<open>io.Copy\<close> also returns is left out: \<open>_copy\<close> drops both results.
\<close>

fun io_Copy :: "pipe \<Rightarrow> char list list \<Rightarrow> err option \<Rightarrow> err option \<times> pipe" where
  "io_Copy w [] rerr = (rerr, w)"
| "io_Copy w (c # cs) rerr =
     (if c = [] then io_Copy w cs rerr
      else (case pipe_Write c w of
              (Some e, w') \<Rightarrow> (Some e, w')
            | (None, w') \<Rightarrow> io_Copy w' cs rerr))"

text \<open>
  \<open>bytes.NewReader(data)\<close>: \<open>io.Copy\<close> uses the reader's \<open>WriteTo\<close>, which hands all
  of \<open>data\<close> to one \<open>Write\<close>, and writes nothing when \<open>data\<close> is empty. It never
  fails to read.
\<close>

definition bytes_NewReader :: "char list \<Rightarrow> reader" where
  "bytes_NewReader data = \<lparr>chunks = (if data = [] then [] else [data]), rfault = None\<rparr>"

subsection \<open>The connection and the private copy function\<close>

text \<open>
  The \<open>*ssh.Client\<close> as \<open>_copy\<close> uses it: what \<open>NewSession\<close> and \<open>session.Start\<close>
  return, the input stream of the session (\<open>StdinPipe\<close> cannot fail on a session
  that was just created, so its dropped error is always \<open>nil\<close>), the commands started
  so far, and whether the deferred \<open>session.Close()\<close> has run.
\<close>

record client =
  new_session_err :: "err option"
  start_err :: "err option"
  stdin :: pipe
  started :: "string list"
  session_closed :: bool

text \<open>
  \<open>_copy\<close> (the name cannot start with an underscore here). The result of
  \<open>io.Copy\<close> is dropped, as in the source.
\<close>

definition u_copy ::
  "int \<Rightarrow> 32 word \<Rightarrow> string \<Rightarrow> string \<Rightarrow> reader \<Rightarrow> client \<Rightarrow> err option \<times> client" where
  "u_copy sz mode fileName destination contents conn =
     (case new_session_err conn of
        Some e \<Rightarrow> (Some e, conn)
      | None \<Rightarrow>
         (let cmd = ''scp -t '' @ destination in
          case start_err conn of
            Some e \<Rightarrow> (Some e, conn\<lparr>session_closed := True\<rparr>)
          | None \<Rightarrow>
             (let conn1 = conn\<lparr>started := started conn @ [cmd]\<rparr>;
                  (err1, w1) = pipe_Write (header_line mode sz fileName) (stdin conn1)
              in case err1 of
                   Some e \<Rightarrow> (Some e, conn1\<lparr>stdin := w1, session_closed := True\<rparr>)
                 | None \<Rightarrow>
                    (let (dropped, w2) = io_Copy w1 (chunks contents) (rfault contents);
                         (err3, w3) = pipe_Write [CHR 0x00] w2
                     in case err3 of
                          Some e \<Rightarrow> (Some e, conn1\<lparr>stdin := w3, session_closed := True\<rparr>)
                        | None \<Rightarrow>
                           (let (err4, w4) = pipe_Close w3
                            in (err4, conn1\<lparr>stdin := w4, session_closed := True\<rparr>))))))"

definition CopyWithFileMode ::
  "32 word \<Rightarrow> string \<Rightarrow> string \<Rightarrow> char list \<Rightarrow> client \<Rightarrow> err option \<times> client" where
  "CopyWithFileMode mode filename destinationPath data conn =
     u_copy (int (length data)) mode filename destinationPath (bytes_NewReader data) conn"

text \<open>\<open>Copy\<close> uses the mode \<open>0664\<close> (octal), which is 436.\<close>

definition Copy :: "client \<Rightarrow> string \<Rightarrow> string \<Rightarrow> char list \<Rightarrow> err option \<times> client" where
  "Copy conn filename destinationPath data =
     CopyWithFileMode 436 filename destinationPath data conn"

text \<open>
  \<open>path.Base\<close>: the empty path is \<open>.\<close>; trailing slashes are stripped; what follows
  the last slash is kept; a path of slashes only is \<open>/\<close>.
\<close>

definition path_Base :: "string \<Rightarrow> string" where
  "path_Base p =
     (if p = [] then ''.''
      else (let q = rev (dropWhile (\<lambda>c. c = CHR ''/'') (rev p));
                r = rev (takeWhile (\<lambda>c. c \<noteq> CHR ''/'') (rev q))
            in if r = [] then ''/'' else r))"

text \<open>
  A local file as \<open>CopyFile\<close> sees it after \<open>os.Open\<close>: what \<open>Stat\<close> returns
  (an error, or the size and the mode bits) and what reading it delivers.
  \<open>Perm()\<close> keeps the low nine bits of the mode (\<open>0777\<close> is 511).
\<close>

record local_file =
  f_stat :: "err + (int \<times> 32 word)"
  f_contents :: reader

definition CopyFile ::
  "(string \<Rightarrow> err + local_file) \<Rightarrow> string \<Rightarrow> string \<Rightarrow> client \<Rightarrow> err option \<times> client" where
  "CopyFile os_Open filePath destinationPath conn =
     (case os_Open filePath of
        Inl e \<Rightarrow> (Some e, conn)
      | Inr f \<Rightarrow>
         (case f_stat f of
            Inl e \<Rightarrow> (Some e, conn)
          | Inr (sz, m) \<Rightarrow>
              u_copy sz (m AND 511) (path_Base filePath) destinationPath (f_contents f) conn))"

text \<open>A client on which nothing fails, with a session whose input stream is still empty.\<close>

definition healthy_client :: client where
  "healthy_client =
     \<lparr>new_session_err = None, start_err = None,
      stdin = \<lparr>sent = [], closed = False, wfaults = [], cfault = None\<rparr>,
      started = [], session_closed = False\<rparr>"

subsection \<open>The receiving side of the wire format\<close>

text \<open>
  Modelled from the spec: the receiver of the copy wire format (section 6: the line
  \<open>C<mode> <length> <name>\<close> ended by a newline, then \<open>length\<close> raw bytes, then one
  zero byte). The repository holds no receiver: the remote \<open>scp -t\<close> command plays
  that role. \<open>receive_copy\<close> returns the mode, the name and the payload, and refuses
  every byte sequence that is not exactly one such frame.
\<close>

definition digit_val :: "char \<Rightarrow> nat option" where
  "digit_val c =
     (let k = (of_char c :: nat) in if 48 \<le> k \<and> k \<le> 57 then Some (k - 48) else None)"

fun digits_value_acc :: "nat \<Rightarrow> nat \<Rightarrow> string \<Rightarrow> nat option" where
  "digits_value_acc b acc [] = Some acc"
| "digits_value_acc b acc (c # cs) =
     (case digit_val c of
        None \<Rightarrow> None
      | Some d \<Rightarrow> if d < b then digits_value_acc b (acc * b + d) cs else None)"

definition digits_value :: "nat \<Rightarrow> string \<Rightarrow> nat option" where
  "digits_value b s = (if s = [] then None else digits_value_acc b 0 s)"

text \<open>
  \<open>numeral_text b s n\<close>: the text \<open>s\<close> is the numeral of \<open>n\<close> in base \<open>b\<close>, with no
  leading zero beyond the single digit of the number zero.
\<close>

definition numeral_text :: "nat \<Rightarrow> string \<Rightarrow> nat \<Rightarrow> bool" where
  "numeral_text b s n \<longleftrightarrow> digits_value b s = Some n \<and> (length s = 1 \<or> hd s \<noteq> CHR ''0'')"

definition receive_copy :: "char list \<Rightarrow> (nat \<times> string \<times> char list) option" where
  "receive_copy bs =
     (case bs of
        [] \<Rightarrow> None
      | c # r0 \<Rightarrow>
         if c \<noteq> CHR ''C'' then None
         else
           (let m = takeWhile (\<lambda>x. x \<noteq> CHR '' '') r0;
                l = takeWhile (\<lambda>x. x \<noteq> CHR '' '') (drop 1 (dropWhile (\<lambda>x. x \<noteq> CHR '' '') r0));
                r = drop 1 (dropWhile (\<lambda>x. x \<noteq> CHR '' '')
                       (drop 1 (dropWhile (\<lambda>x. x \<noteq> CHR '' '') r0)));
                nm = takeWhile (\<lambda>x. x \<noteq> CHR 0x0A) r;
                body = drop 1 (dropWhile (\<lambda>x. x \<noteq> CHR 0x0A) r)
            in case (digits_value 8 m, digits_value 10 l) of
                 (Some mode, Some n) \<Rightarrow>
                   if length body = n + 1 \<and> body ! n = CHR 0x00
                   then Some (mode, nm, take n body) else None
               | _ \<Rightarrow> None))"

text \<open>
  A client whose transport accepts the header line, then fails during the write of the
  payload after two bytes, and accepts every later write and the close.
\<close>

definition payload_fault_client :: client where
  "payload_fault_client =
     healthy_client\<lparr>stdin := (stdin healthy_client)\<lparr>wfaults := [None, Some (2, ''broken pipe'')]\<rparr>\<rparr>"

text \<open>
  A file system in which \<open>/data\<close> is a directory: \<open>os.Open\<close> and \<open>Stat\<close> succeed
  (size 4096, mode \<open>ModeDir | 0755\<close>, which is \<open>0x800001ED\<close>) and every read fails.
\<close>

definition dir_fs :: "string \<Rightarrow> err + local_file" where
  "dir_fs path =
     (if path = ''/data''
      then Inr \<lparr>f_stat = Inr (4096, 0x800001ED),
                f_contents = \<lparr>chunks = [], rfault = Some ''read /data: is a directory''\<rparr>\<rparr>
      else Inl ''no such file or directory'')"

text \<open>
  A file system with the regular file \<open>/home/u/a.txt\<close>: three bytes, mode \<open>0644\<close>.
\<close>

definition plain_fs :: "string \<Rightarrow> err + local_file" where
  "plain_fs path =
     (if path = ''/home/u/a.txt''
      then Inr \<lparr>f_stat = Inr (3, 420), f_contents = \<lparr>chunks = [''abc''], rfault = None\<rparr>\<rparr>
      else Inl ''no such file or directory'')"

text \<open>
  A file system in which \<open>/var/log/app.log\<close> grows between \<open>Stat\<close> (three bytes) and
  the reads (six bytes).
\<close>

definition grown_fs :: "string \<Rightarrow> err + local_file" where
  "grown_fs path =
     (if path = ''/var/log/app.log''
      then Inr \<lparr>f_stat = Inr (3, 420), f_contents = \<lparr>chunks = [''abcdef''], rfault = None\<rparr>\<rparr>
      else Inl ''no such file or directory'')"

section \<open>Forwarding Tunnel (client.go: Forward)\<close>

text \<open>
  What \<open>forwardFunc(conn, url, port)\<close> returns: the three streams of the remote
  session and an error. A stream is named by a number; \<open>None\<close> is Go's \<open>nil\<close>
  (\<open>ForwardNetcat\<close> returns three \<open>nil\<close> streams with the error when the session
  cannot be opened).
\<close>

record forward_result =
  fw_stdin :: "nat option"
  fw_stdout :: "nat option"
  fw_stderr :: "nat option"
  fw_err :: "err option"

text \<open>
  The three copy goroutines of one accepted connection \<open>l\<close>:
  \<open>io.CopyBuffer(l, stdout, buf)\<close>, \<open>io.CopyBuffer(stdin, l, buf)\<close> and
  \<open>io.Copy(stderrBuffer, stderr)\<close>.
\<close>

datatype copy_task =
    StdoutToLocal "nat option" nat
  | LocalToStdin nat "nat option"
  | StderrToBuffer "nat option"

datatype tunnel_event =
    TLogInfo string
  | TLogError err
  | TPrintln err
  | TGo copy_task
  | TListenerClose

text \<open>
  The goroutine \<open>Forward\<close> starts for the accepted connection \<open>l\<close>: what it logs and
  which goroutines it starts, in program order. After \<open>log.Error(err)\<close> the source
  does not return: the three \<open>go\<close> statements follow on every path.
\<close>

definition forward_conn ::
  "('c \<Rightarrow> string \<Rightarrow> int \<Rightarrow> forward_result) \<Rightarrow> 'c \<Rightarrow> string \<Rightarrow> int \<Rightarrow> nat \<Rightarrow> tunnel_event list" where
  "forward_conn forwardFunc conn url port l =
     (let r = forwardFunc conn url port
      in [TLogInfo ''Starting session...''] @
         (case fw_err r of Some e \<Rightarrow> [TLogError e] | None \<Rightarrow> []) @
         [TGo (StdoutToLocal (fw_stdout r) l),
          TGo (LocalToStdin l (fw_stdin r)),
          TGo (StderrToBuffer (fw_stderr r))])"

text \<open>
  The accept loop of \<open>Forward\<close> over the outcomes of the successive \<open>Accept\<close> calls
  (\<open>Inl\<close> an error, \<open>Inr\<close> the accepted connection). The events of each connection's
  goroutine are listed where it is started. The loop returns the first accept error,
  after the deferred \<open>listener.Close()\<close>; when the outcomes run out it is blocked in
  \<open>Accept\<close> and has not returned (\<open>None\<close>).
\<close>

fun Forward ::
  "'c \<Rightarrow> (err + nat) list \<Rightarrow> string \<Rightarrow> int \<Rightarrow> ('c \<Rightarrow> string \<Rightarrow> int \<Rightarrow> forward_result)
     \<Rightarrow> tunnel_event list \<times> err option" where
  "Forward conn [] url port forwardFunc = ([], None)"
| "Forward conn (Inl e # accepts) url port forwardFunc =
     ([TLogInfo ''Accepting connection...'', TPrintln e, TListenerClose], Some e)"
| "Forward conn (Inr l # accepts) url port forwardFunc =
     (let (evs, r) = Forward conn accepts url port forwardFunc
      in (TLogInfo ''Accepting connection...'' # forward_conn forwardFunc conn url port l @ evs, r))"

text \<open>
  A session opener that fails the way \<open>ForwardNetcat\<close> does when the session cannot be
  opened: three \<open>nil\<close> streams and the error.
\<close>

definition failing_forward :: "unit \<Rightarrow> string \<Rightarrow> int \<Rightarrow> forward_result" where
  "failing_forward conn url port =
     \<lparr>fw_stdin = None, fw_stdout = None, fw_stderr = None,
      fw_err = Some ''ssh: unexpected packet in response to channel open''\<rparr>"

section \<open>Server Channel Handler (handleChannels, handleChannel, parseDims, SetWinsize)\<close>

type_synonym byte = "8 word"

text \<open>
  \<open>Winsize\<close>, the argument of the \<open>TIOCSWINSZ\<close> ioctl. The source's unused fields
  \<open>x\<close> and \<open>y\<close> are named \<open>unused_x\<close> and \<open>unused_y\<close> here.
\<close>

record Winsize =
  Height :: "16 word"
  Width :: "16 word"
  unused_x :: "16 word"
  unused_y :: "16 word"

datatype reject_reason = UnknownChannelType

text \<open>What the handler does to the outside, in order.\<close>

datatype server_event =
    Reject reject_reason string
  | Accepted
  | PtyStarted
  | Log_Errorf string
  | Log_Infof string
  | ChannelClose
  | ProcessWait
  | Reply bool
  | Ioctl_TIOCSWINSZ Winsize

record request =
  Type :: string
  Payload :: "byte list"

text \<open>
  An incoming channel and its surroundings: the declared type, and what
  \<open>newChannel.Accept()\<close>, \<open>pty.Start(bash)\<close> and \<open>bash.Process.Wait()\<close> return.
\<close>

record new_channel =
  ChannelType :: string
  accept_err :: "err option"
  pty_err :: "err option"
  wait_err :: "err option"

text \<open>
  The teardown closure \<open>close\<close> of \<open>handleChannel\<close>, for a shell that was started
  (\<open>bash.Process\<close> is set).
\<close>

definition close_fn :: "new_channel \<Rightarrow> server_event list" where
  "close_fn nc =
     [ChannelClose, ProcessWait] @
     (case wait_err nc of
        Some e \<Rightarrow> [Log_Errorf (''Failed to exit bash ('' @ e @ '')'')]
      | None \<Rightarrow> []) @
     [Log_Infof ''Session closed'']"

text \<open>
  The goroutines \<open>handleChannel\<close> starts: the two relay copies, each followed by
  \<open>once.Do(close)\<close>, and the loop over the channel's requests.
\<close>

datatype goroutine = CopyPtyToChannel | CopyChannelToPty | ServeRequests

record handled =
  events :: "server_event list"
  spawned :: "goroutine list"
  panicked :: bool

text \<open>
  \<open>handleChannel\<close> up to its return or panic: its effects, the goroutines it leaves
  running, and whether it panicked. When \<open>pty.Start\<close> fails the shell was never
  started, so \<open>bash.Process\<close> is \<open>nil\<close>: the teardown closure closes the channel and
  then panics in \<open>bash.Process.Wait()\<close>, before anything else is logged.
\<close>

definition handleChannel :: "new_channel \<Rightarrow> handled" where
  "handleChannel nc =
     (if ChannelType nc \<noteq> ''session''
      then \<lparr>events = [Reject UnknownChannelType (''unknown channel type: '' @ ChannelType nc)],
            spawned = [], panicked = False\<rparr>
      else (case accept_err nc of
              Some e \<Rightarrow>
                \<lparr>events = [Log_Errorf (''Could not accept channel ('' @ e @ '')'')],
                 spawned = [], panicked = False\<rparr>
            | None \<Rightarrow>
               (case pty_err nc of
                  Some e \<Rightarrow>
                    \<lparr>events = [Accepted, Log_Infof ''Creating pty...'',
                               Log_Errorf (''Could not start pty ('' @ e @ '')''), ChannelClose],
                     spawned = [], panicked = True\<rparr>
                | None \<Rightarrow>
                    \<lparr>events = [Accepted, Log_Infof ''Creating pty...'', PtyStarted],
                     spawned = [CopyPtyToChannel, CopyChannelToPty, ServeRequests],
                     panicked = False\<rparr>)))"

text \<open>
  \<open>handleChannels\<close>: the loop \<open>for newChannel := range chans\<close> starts one
  \<open>handleChannel\<close> per incoming channel; nothing in the loop body leaves the loop.
  Each handler runs in a goroutine of its own: the list holds what each one does by
  itself.
\<close>

fun handleChannels :: "new_channel list \<Rightarrow> handled list" where
  "handleChannels [] = []"
| "handleChannels (newChannel # chans) = handleChannel newChannel # handleChannels chans"

subsection \<open>The relay goroutines and sync.Once\<close>

text \<open>
  Each relay goroutine runs \<open>io.Copy\<close> and then \<open>once.Do(close)\<close>. \<open>Do\<close> is modelled
  step by step as Go's \<open>sync\<close> package writes it: the unlocked load of \<open>done\<close>
  (\<open>OnceFast\<close>), then in \<open>doSlow\<close> the mutex (\<open>OnceLock\<close>), the second load of \<open>done\<close>
  under the mutex and the call of \<open>close\<close> (\<open>OnceCrit\<close>), the deferred store of \<open>done\<close>
  (\<open>OnceStore\<close>) and the deferred unlock (\<open>OnceUnlock\<close>). The steps of the two
  goroutines interleave in any order.
\<close>

datatype copier = PtyToChannel | ChannelToPty

datatype pc = Copying | OnceFast | OnceLock | OnceCrit | OnceStore | OnceUnlock | Finished

record relay =
  at :: "copier \<Rightarrow> pc"
  once_done :: bool
  once_locked :: bool
  trace :: "server_event list"

definition relay_init :: relay where
  "relay_init = \<lparr>at = (\<lambda>t. Copying), once_done = False, once_locked = False, trace = []\<rparr>"

inductive relay_step :: "new_channel \<Rightarrow> relay \<Rightarrow> relay \<Rightarrow> bool" for nc :: new_channel where
  copy_ends:
    "at s t = Copying \<Longrightarrow> relay_step nc s (s\<lparr>at := (at s)(t := OnceFast)\<rparr>)"
| fast_done:
    "at s t = OnceFast \<Longrightarrow> once_done s \<Longrightarrow> relay_step nc s (s\<lparr>at := (at s)(t := Finished)\<rparr>)"
| fast_slow:
    "at s t = OnceFast \<Longrightarrow> \<not> once_done s \<Longrightarrow> relay_step nc s (s\<lparr>at := (at s)(t := OnceLock)\<rparr>)"
| lock:
    "at s t = OnceLock \<Longrightarrow> \<not> once_locked s \<Longrightarrow>
       relay_step nc s (s\<lparr>at := (at s)(t := OnceCrit), once_locked := True\<rparr>)"
| crit_run:
    "at s t = OnceCrit \<Longrightarrow> \<not> once_done s \<Longrightarrow>
       relay_step nc s (s\<lparr>at := (at s)(t := OnceStore), trace := trace s @ close_fn nc\<rparr>)"
| crit_skip:
    "at s t = OnceCrit \<Longrightarrow> once_done s \<Longrightarrow> relay_step nc s (s\<lparr>at := (at s)(t := OnceUnlock)\<rparr>)"
| store:
    "at s t = OnceStore \<Longrightarrow>
       relay_step nc s (s\<lparr>at := (at s)(t := OnceUnlock), once_done := True\<rparr>)"
| unlock:
    "at s t = OnceUnlock \<Longrightarrow>
       relay_step nc s (s\<lparr>at := (at s)(t := Finished), once_locked := False\<rparr>)"

inductive relay_reachable :: "new_channel \<Rightarrow> relay \<Rightarrow> bool" for nc :: new_channel where
  start: "relay_reachable nc relay_init"
| step: "relay_reachable nc s \<Longrightarrow> relay_step nc s s' \<Longrightarrow> relay_reachable nc s'"

text \<open>How often the teardown has run: each run closes the channel once.\<close>

definition teardowns :: "relay \<Rightarrow> nat" where
  "teardowns s = count_list (trace s) ChannelClose"

text \<open>Inside the critical section of \<open>doSlow\<close>: the goroutine holds the mutex.\<close>

definition holds_mutex :: "pc \<Rightarrow> bool" where
  "holds_mutex p \<longleftrightarrow> p = OnceCrit \<or> p = OnceStore \<or> p = OnceUnlock"

text \<open>Inside \<open>once.Do\<close>: the copy has ended and \<open>Do\<close> has not returned yet.\<close>

definition in_Do :: "pc \<Rightarrow> bool" where
  "in_Do p \<longleftrightarrow> p \<noteq> Copying \<and> p \<noteq> Finished"

text \<open>
  What holds in every state the relay can reach: the mutex is locked exactly while one
  goroutine is in the critical section, never both; the teardown has run exactly when
  \<open>done\<close> is set or a goroutine is about to set it; and a goroutine past the critical
  section has left \<open>done\<close> set.
\<close>

definition relay_inv :: "new_channel \<Rightarrow> relay \<Rightarrow> bool" where
  "relay_inv nc s \<longleftrightarrow>
     (once_locked s \<longleftrightarrow> holds_mutex (at s PtyToChannel) \<or> holds_mutex (at s ChannelToPty))
     \<and> \<not> (holds_mutex (at s PtyToChannel) \<and> holds_mutex (at s ChannelToPty))
     \<and> trace s = (if once_done s \<or> at s PtyToChannel = OnceStore \<or> at s ChannelToPty = OnceStore
                   then close_fn nc else [])
     \<and> \<not> (once_done s \<and> (at s PtyToChannel = OnceStore \<or> at s ChannelToPty = OnceStore))
     \<and> (\<forall>t. at s t = OnceUnlock \<or> at s t = Finished \<longrightarrow> once_done s)"

text \<open>
  The state in which the copy from the PTY to the channel has ended and its \<open>once.Do\<close>
  has returned, while the other copy is still running.
\<close>

definition relay_one_done :: "new_channel \<Rightarrow> relay" where
  "relay_one_done nc =
     \<lparr>at = (\<lambda>t. Copying)(PtyToChannel := Finished), once_done = True, once_locked = False,
      trace = close_fn nc\<rparr>"

subsection \<open>The request loop\<close>

text \<open>A Go call either returns or panics (here: index or slice bound out of range).\<close>

datatype 'a go = Returns 'a | Panics

text \<open>
  \<open>binary.BigEndian.Uint32(b)\<close>: the bounds check \<open>_ = b[3]\<close> panics on fewer than
  four bytes.
\<close>

definition Uint32 :: "byte list \<Rightarrow> 32 word go" where
  "Uint32 b =
     (if length b < 4 then Panics
      else Returns (ucast (b ! 3) OR push_bit 8 (ucast (b ! 2)) OR
                    push_bit 16 (ucast (b ! 1)) OR push_bit 24 (ucast (b ! 0))))"

text \<open>\<open>parseDims\<close>; the slice \<open>b[4:]\<close> panics when \<open>b\<close> has fewer than four bytes.\<close>

definition parseDims :: "byte list \<Rightarrow> (32 word \<times> 32 word) go" where
  "parseDims b =
     (case Uint32 b of
        Panics \<Rightarrow> Panics
      | Returns w \<Rightarrow>
         (if length b < 4 then Panics
          else (case Uint32 (drop 4 b) of
                  Panics \<Rightarrow> Panics
                | Returns h \<Rightarrow> Returns (w, h))))"

text \<open>
  \<open>SetWinsize\<close> (the file descriptor is the PTY of the channel): the conversions
  \<open>uint16(w)\<close> and \<open>uint16(h)\<close> keep the low 16 bits.
\<close>

definition SetWinsize :: "32 word \<Rightarrow> 32 word \<Rightarrow> server_event" where
  "SetWinsize w h =
     Ioctl_TIOCSWINSZ \<lparr>Height = ucast h, Width = ucast w, unused_x = 0, unused_y = 0\<rparr>"

text \<open>
  The body of the loop over the requests: the \<open>switch\<close> on \<open>req.Type\<close>. In the
  \<open>pty-req\<close> case \<open>termLen\<close> is the byte \<open>req.Payload[3]\<close>, so \<open>termLen+4\<close> is
  computed in 8 bits and wraps around at 256.
\<close>

definition handle_request :: "request \<Rightarrow> server_event list go" where
  "handle_request req =
     (if Type req = ''shell'' then
        Returns (if length (Payload req) = 0 then [Reply True] else [])
      else if Type req = ''pty-req'' then
        (if length (Payload req) \<le> 3 then Panics
         else (let termLen = Payload req ! 3;
                   off = unat (termLen + 4)
               in if length (Payload req) < off then Panics
                  else (case parseDims (drop off (Payload req)) of
                          Panics \<Rightarrow> Panics
                        | Returns (w, h) \<Rightarrow> Returns [SetWinsize w h, Reply True])))
      else if Type req = ''window-change'' then
        (case parseDims (Payload req) of
           Panics \<Rightarrow> Panics
         | Returns (w, h) \<Rightarrow> Returns [SetWinsize w h])
      else Returns [])"

text \<open>
  \<open>for req := range requests\<close>: the requests are served in order; a panic ends the
  goroutine (and with it the process), and the requests after it are not served.
\<close>

fun serve_requests :: "request list \<Rightarrow> server_event list go" where
  "serve_requests [] = Returns []"
| "serve_requests (req # reqs) =
     (case handle_request req of
        Panics \<Rightarrow> Panics
      | Returns evs \<Rightarrow>
         (case serve_requests reqs of
            Panics \<Rightarrow> Panics
          | Returns evs' \<Rightarrow> Returns (evs @ evs')))"

text \<open>
  Where in the payload the handler reads the dimensions: behind the term name for
  \<open>pty-req\<close> (at \<open>termLen+4\<close>, computed in 8 bits), at the start otherwise.
\<close>

definition dims_offset :: "request \<Rightarrow> nat" where
  "dims_offset req = (if Type req = ''pty-req'' then unat (Payload req ! 3 + 4) else 0)"

text \<open>
  For stating the payload layouts: the value of a byte string read as a big-endian
  number, and the four bytes of a 32-bit value, most significant first.
\<close>

definition be_value :: "byte list \<Rightarrow> nat" where
  "be_value bs = foldl (\<lambda>a b. a * 256 + unat b) 0 bs"

definition be_bytes :: "32 word \<Rightarrow> byte list" where
  "be_bytes v = [ucast (drop_bit 24 v), ucast (drop_bit 16 v), ucast (drop_bit 8 v), ucast v]"

section \<open>Properties of the Remote Copy Framer\<close>

lemma pipe_Write_no_fault:
  assumes "set (wfaults p) \<subseteq> {None}"
  shows "\<exists>p'. pipe_Write bs p = (None, p') \<and> sent p' = sent p @ bs \<and>
           closed p' = closed p \<and> cfault p' = cfault p \<and> set (wfaults p') \<subseteq> {None}"
  using assms by (auto simp: pipe_Write_def split: list.splits option.splits)

lemma io_Copy_no_fault:
  assumes "set (wfaults p) \<subseteq> {None}"
  shows "\<exists>p'. io_Copy p cs rerr = (rerr, p') \<and> sent p' = sent p @ concat cs \<and>
           closed p' = closed p \<and> cfault p' = cfault p \<and> set (wfaults p') \<subseteq> {None}"
  using assms
proof (induction cs arbitrary: p)
  case Nil
  then show ?case by simp
next
  case (Cons c cs)
  show ?case
  proof (cases "c = []")
    case True
    with Cons show ?thesis by simp
  next
    case False
    from pipe_Write_no_fault [OF Cons.prems, of c]
    obtain p1 where w: "pipe_Write c p = (None, p1)" "sent p1 = sent p @ c"
      "closed p1 = closed p" "cfault p1 = cfault p" "set (wfaults p1) \<subseteq> {None}"
      by blast
    from Cons.IH [OF w(5)]
    obtain p2 where c: "io_Copy p1 cs rerr = (rerr, p2)" "sent p2 = sent p1 @ concat cs"
      "closed p2 = closed p1" "cfault p2 = cfault p1" "set (wfaults p2) \<subseteq> {None}"
      by blast
    from False w c show ?thesis by simp
  qed
qed

subsection \<open>The header line\<close>

lemma digit_val_digit_char: "d < 10 \<Longrightarrow> digit_val (digit_char d) = Some d"
proof -
  assume "d < 10"
  then have "d \<in> {0,1,2,3,4,5,6,7,8,9}" by auto
  then show ?thesis
    by (auto simp: digit_val_def digit_char_def ldigits_def)
qed

lemma digit_char_nonzero: "0 < d \<Longrightarrow> d < 10 \<Longrightarrow> digit_char d \<noteq> CHR ''0''"
proof -
  assume "0 < d" "d < 10"
  then have "d \<in> {1,2,3,4,5,6,7,8,9}" by auto
  then show ?thesis
    by (auto simp: digit_char_def ldigits_def)
qed

lemma digits_value_acc_append:
  "digits_value_acc b acc (xs @ ys) =
     (case digits_value_acc b acc xs of None \<Rightarrow> None | Some v \<Rightarrow> digits_value_acc b v ys)"
  by (induction xs arbitrary: acc) (auto split: option.splits)

lemma fmt_base_nonempty: "fmt_base b n \<noteq> []"
  by (induction b n rule: fmt_base.induct) (subst fmt_base.simps, simp)

lemma digits_value_acc_fmt_base:
  "2 \<le> b \<Longrightarrow> b \<le> 10 \<Longrightarrow> digits_value_acc b 0 (fmt_base b n) = Some n"
proof (induction b n rule: fmt_base.induct)
  case (1 b n)
  show ?case
  proof (cases "n < b")
    case True
    with 1 have "digit_val (digit_char n) = Some n"
      by (simp add: digit_val_digit_char)
    with True show ?thesis
      by (subst fmt_base.simps) simp
  next
    case False
    with 1 have ih: "digits_value_acc b 0 (fmt_base b (n div b)) = Some (n div b)"
      by simp
    from 1 have "n mod b < b" by simp
    with 1 have "n mod b < 10" by linarith
    then have dv: "digit_val (digit_char (n mod b)) = Some (n mod b)"
      by (rule digit_val_digit_char)
    from 1 have "n mod b < b" by simp
    with False 1 ih dv show ?thesis
      by (subst fmt_base.simps) (simp add: digits_value_acc_append)
  qed
qed

lemma hd_fmt_base:
  "2 \<le> b \<Longrightarrow> b \<le> 10 \<Longrightarrow> 0 < n \<Longrightarrow> hd (fmt_base b n) \<noteq> CHR ''0''"
proof (induction b n rule: fmt_base.induct)
  case (1 b n)
  show ?case
  proof (cases "n < b")
    case True
    with 1 have "digit_char n \<noteq> CHR ''0''"
      by (simp add: digit_char_nonzero)
    with True show ?thesis
      by (subst fmt_base.simps) simp
  next
    case False
    with 1 have "0 < n div b"
      by (simp add: div_greater_zero_iff)
    with False 1 have "hd (fmt_base b (n div b)) \<noteq> CHR ''0''"
      by simp
    with False 1 show ?thesis
      by (subst fmt_base.simps) (simp add: fmt_base_nonempty)
  qed
qed

lemma fmt_base_zero: "2 \<le> b \<Longrightarrow> fmt_base b 0 = ''0''"
  by (subst fmt_base.simps) (simp add: digit_char_def ldigits_def)

lemma numeral_text_fmt_base:
  assumes "2 \<le> b" "b \<le> 10"
  shows "numeral_text b (fmt_base b n) n"
proof (cases "n = 0")
  case True
  with assms show ?thesis
    by (simp add: numeral_text_def fmt_base_zero digits_value_def digit_val_def)
next
  case False
  with assms show ?thesis
    by (simp add: numeral_text_def digits_value_def fmt_base_nonempty
                  digits_value_acc_fmt_base hd_fmt_base)
qed

lemma fmt_sharp_o_form:
  "fmt_sharp_o mode = (if mode = 0 then ''0'' else CHR ''0'' # fmt_base 8 (unat mode))"
proof (cases "mode = 0")
  case True
  then show ?thesis by (simp add: fmt_sharp_o_def fmt_base_zero)
next
  case False
  then have "0 < unat mode" by (simp add: unat_gt_0)
  then have "hd (fmt_base 8 (unat mode)) \<noteq> CHR ''0''"
    by (simp add: hd_fmt_base)
  with False show ?thesis by (simp add: fmt_sharp_o_def Let_def)
qed

lemma fmt_d_nat: "fmt_d (int n) = fmt_base 10 n"
  by (simp add: fmt_d_def)

subsection \<open>The stream of a call on which no write fails\<close>

lemmas copy_eval =
  CopyWithFileMode_def u_copy_def bytes_NewReader_def pipe_Write_def pipe_Close_def
  healthy_client_def header_line_def fmt_sharp_o_def fmt_d_def fmt_base.simps
  digit_char_def ldigits_def

lemma u_copy_no_fault:
  assumes ret: "u_copy sz mode fileName destination contents conn = (None, conn')"
    and ok: "set (wfaults (stdin conn)) \<subseteq> {None}"
  shows "sent (stdin conn') =
           sent (stdin conn) @ header_line mode sz fileName @ concat (chunks contents) @ [CHR 0x00]
         \<and> closed (stdin conn')"
proof -
  let ?hdr = "header_line mode sz fileName"
  from pipe_Write_no_fault [OF ok, of ?hdr]
  obtain w1 where w1: "pipe_Write ?hdr (stdin conn) = (None, w1)"
      "sent w1 = sent (stdin conn) @ ?hdr" "set (wfaults w1) \<subseteq> {None}"
    by blast
  from io_Copy_no_fault [OF w1(3), of "chunks contents" "rfault contents"]
  obtain w2 where w2: "io_Copy w1 (chunks contents) (rfault contents) = (rfault contents, w2)"
      "sent w2 = sent w1 @ concat (chunks contents)" "set (wfaults w2) \<subseteq> {None}"
    by blast
  from pipe_Write_no_fault [OF w2(3), of "[CHR 0x00]"]
  obtain w3 where w3: "pipe_Write [CHR 0x00] w2 = (None, w3)" "sent w3 = sent w2 @ [CHR 0x00]"
    by blast
  from ret w1 w2 w3 show ?thesis
    by (auto simp: u_copy_def pipe_Close_def Let_def split: option.splits)
qed

lemma u_copy_returns_nil:
  assumes "new_session_err conn = None" "start_err conn = None"
    and ok: "set (wfaults (stdin conn)) \<subseteq> {None}"
  shows "fst (u_copy sz mode fileName destination contents conn) = cfault (stdin conn)"
proof -
  let ?hdr = "header_line mode sz fileName"
  from pipe_Write_no_fault [OF ok, of ?hdr]
  obtain w1 where w1: "pipe_Write ?hdr (stdin conn) = (None, w1)"
      "cfault w1 = cfault (stdin conn)" "set (wfaults w1) \<subseteq> {None}"
    by blast
  from io_Copy_no_fault [OF w1(3), of "chunks contents" "rfault contents"]
  obtain w2 where w2: "io_Copy w1 (chunks contents) (rfault contents) = (rfault contents, w2)"
      "cfault w2 = cfault w1" "set (wfaults w2) \<subseteq> {None}"
    by blast
  from pipe_Write_no_fault [OF w2(3), of "[CHR 0x00]"]
  obtain w3 where w3: "pipe_Write [CHR 0x00] w2 = (None, w3)" "cfault w3 = cfault w2"
    by blast
  from assms(1,2) w1 w2 w3 show ?thesis
    by (simp add: u_copy_def pipe_Close_def Let_def)
qed

text \<open>
  \<^bold>\<open>Claim C2 (as amended).\<close> On a session whose input stream fails no write, a
  Remote Copy call that returns \<open>nil\<close> has sent, after what the stream held before,
  exactly: one header line (the letter \<open>C\<close>, the mode in octal behind a single leading
  \<open>0\<close>, a space, the length in decimal, a space, the name, a newline), then the payload
  byte for byte, then one zero byte; and the write side is closed when the call returns.
  For \<open>CopyWithFileMode\<close> and \<open>Copy\<close> (mode \<open>0664\<close>) the length is the length of the
  payload and the name is the file name as given, not reduced to a base name. For
  \<open>CopyFile\<close>, when reading the file ends without an error, the mode is the permission
  bits of the file, the length is the size \<open>Stat\<close> reports, the name is \<open>path.Base\<close> of
  the local path and the payload is what reading the file delivers. The last three
  conjuncts say what the printed numbers are: \<open>%#o\<close> prints the octal numeral behind one
  \<open>0\<close> (zero as the single digit \<open>0\<close>), \<open>%d\<close> the decimal numeral. Calls on which a write
  or a read fails are left out here (claim C8).
\<close>

theorem copy_wire_format:
  assumes ok: "set (wfaults (stdin conn)) \<subseteq> {None}"
  shows "(CopyWithFileMode mode filename destinationPath data conn = (None, conn') \<longrightarrow>
            sent (stdin conn') =
              sent (stdin conn) @ ''C'' @ fmt_sharp_o mode @ '' '' @ fmt_d (int (length data)) @
                '' '' @ filename @ [CHR 0x0A] @ data @ [CHR 0x00]
            \<and> closed (stdin conn'))
       \<and> (Copy conn filename destinationPath data = (None, conn') \<longrightarrow>
            sent (stdin conn') =
              sent (stdin conn) @ ''C0664 '' @ fmt_d (int (length data)) @
                '' '' @ filename @ [CHR 0x0A] @ data @ [CHR 0x00]
            \<and> closed (stdin conn'))
       \<and> (CopyFile os_Open filePath destinationPath conn = (None, conn')
            \<and> os_Open filePath = Inr f \<and> f_stat f = Inr (sz, m) \<and> rfault (f_contents f) = None \<longrightarrow>
            sent (stdin conn') =
              sent (stdin conn) @ ''C'' @ fmt_sharp_o (m AND 511) @ '' '' @ fmt_d sz @
                '' '' @ path_Base filePath @ [CHR 0x0A] @ concat (chunks (f_contents f)) @ [CHR 0x00]
            \<and> closed (stdin conn'))
       \<and> fmt_sharp_o k = (if k = 0 then ''0'' else CHR ''0'' # fmt_base 8 (unat k))
       \<and> numeral_text 8 (fmt_base 8 (unat k)) (unat k)
       \<and> numeral_text 10 (fmt_d (int n)) n"
proof -
  have a: "sent (stdin conn') =
              sent (stdin conn) @ ''C'' @ fmt_sharp_o mode @ '' '' @ fmt_d (int (length data)) @
                '' '' @ filename @ [CHR 0x0A] @ data @ [CHR 0x00]
            \<and> closed (stdin conn')"
    if "CopyWithFileMode mode filename destinationPath data conn = (None, conn')"
    for mode
  proof -
    from that have "u_copy (int (length data)) mode filename destinationPath
                      (bytes_NewReader data) conn = (None, conn')"
      by (simp add: CopyWithFileMode_def)
    from u_copy_no_fault [OF this ok] show ?thesis
      by (simp add: bytes_NewReader_def header_line_def)
  qed
  have b: "sent (stdin conn') =
              sent (stdin conn) @ ''C0664 '' @ fmt_d (int (length data)) @
                '' '' @ filename @ [CHR 0x0A] @ data @ [CHR 0x00]
            \<and> closed (stdin conn')"
    if "Copy conn filename destinationPath data = (None, conn')"
  proof -
    from that have "CopyWithFileMode 436 filename destinationPath data conn = (None, conn')"
      by (simp add: Copy_def)
    moreover have "fmt_sharp_o 436 = ''0664''"
      by (simp add: fmt_sharp_o_def fmt_base.simps digit_char_def ldigits_def)
    ultimately show ?thesis using a [of 436] by simp
  qed
  have c: "sent (stdin conn') =
              sent (stdin conn) @ ''C'' @ fmt_sharp_o (m AND 511) @ '' '' @ fmt_d sz @
                '' '' @ path_Base filePath @ [CHR 0x0A] @ concat (chunks (f_contents f)) @ [CHR 0x00]
            \<and> closed (stdin conn')"
    if "CopyFile os_Open filePath destinationPath conn = (None, conn')
        \<and> os_Open filePath = Inr f \<and> f_stat f = Inr (sz, m) \<and> rfault (f_contents f) = None"
  proof -
    from that have "u_copy sz (m AND 511) (path_Base filePath) destinationPath (f_contents f) conn
                      = (None, conn')"
      by (auto simp: CopyFile_def)
    from u_copy_no_fault [OF this ok] show ?thesis
      by (simp add: header_line_def)
  qed
  have d: "numeral_text 8 (fmt_base 8 (unat k)) (unat k)"
    by (simp add: numeral_text_fmt_base)
  have e: "numeral_text 10 (fmt_d (int n)) n"
    by (simp add: fmt_d_nat numeral_text_fmt_base)
  from a b c d e show ?thesis
    by (simp add: fmt_sharp_o_form)
qed

theorem copy_wire_format_witness:
  "sent (stdin (snd (CopyWithFileMode 436 ''a.txt'' ''/srv'' ''abc'' healthy_client))) =
     ''C0664 3 a.txt'' @ [CHR 0x0A] @ ''abc'' @ [CHR 0x00]
   \<and> closed (stdin (snd (CopyWithFileMode 436 ''a.txt'' ''/srv'' ''abc'' healthy_client)))
   \<and> sent (stdin (snd (Copy healthy_client ''b.txt'' ''/srv'' ''hi''))) =
       ''C0664 2 b.txt'' @ [CHR 0x0A] @ ''hi'' @ [CHR 0x00]
   \<and> sent (stdin (snd (CopyFile plain_fs ''/home/u/a.txt'' ''/srv'' healthy_client))) =
       ''C0644 3 a.txt'' @ [CHR 0x0A] @ ''abc'' @ [CHR 0x00]"
proof -
  have ok: "set (wfaults (stdin healthy_client)) \<subseteq> {None}"
    by (simp add: healthy_client_def)
  have r1: "CopyWithFileMode 436 ''a.txt'' ''/srv'' ''abc'' healthy_client =
               (None, snd (CopyWithFileMode 436 ''a.txt'' ''/srv'' ''abc'' healthy_client))"
    by (simp add: copy_eval)
  have r2: "Copy healthy_client ''b.txt'' ''/srv'' ''hi'' =
               (None, snd (Copy healthy_client ''b.txt'' ''/srv'' ''hi''))"
    by (simp add: Copy_def copy_eval)
  have r3: "CopyFile plain_fs ''/home/u/a.txt'' ''/srv'' healthy_client =
               (None, snd (CopyFile plain_fs ''/home/u/a.txt'' ''/srv'' healthy_client))"
    by (simp add: CopyFile_def plain_fs_def path_Base_def copy_eval)
  have f: "plain_fs ''/home/u/a.txt'' =
             Inr \<lparr>f_stat = Inr (3, 420), f_contents = \<lparr>chunks = [''abc''], rfault = None\<rparr>\<rparr>"
    by (simp add: plain_fs_def)
  have v: "fmt_sharp_o 436 = ''0664''" "fmt_sharp_o (420 AND 511) = ''0644''" "fmt_d 3 = ''3''"
    "fmt_d 2 = ''2''" "sent (stdin healthy_client) = []" "path_Base ''/home/u/a.txt'' = ''a.txt''"
    by (simp_all add: copy_eval path_Base_def)
  from copy_wire_format [OF ok, of 436 "''a.txt''" "''/srv''" "''abc''"
         "snd (CopyWithFileMode 436 ''a.txt'' ''/srv'' ''abc'' healthy_client)"] r1 v
  have w1: "sent (stdin (snd (CopyWithFileMode 436 ''a.txt'' ''/srv'' ''abc'' healthy_client))) =
     ''C0664 3 a.txt'' @ [CHR 0x0A] @ ''abc'' @ [CHR 0x00]
   \<and> closed (stdin (snd (CopyWithFileMode 436 ''a.txt'' ''/srv'' ''abc'' healthy_client)))"
    by simp
  from copy_wire_format [OF ok, of _ "''b.txt''" "''/srv''" "''hi''"
         "snd (Copy healthy_client ''b.txt'' ''/srv'' ''hi'')"] r2 v
  have w2: "sent (stdin (snd (Copy healthy_client ''b.txt'' ''/srv'' ''hi''))) =
       ''C0664 2 b.txt'' @ [CHR 0x0A] @ ''hi'' @ [CHR 0x00]"
    by simp
  from copy_wire_format [OF ok, of _ _ "''/srv''" _
         "snd (CopyFile plain_fs ''/home/u/a.txt'' ''/srv'' healthy_client)"
         plain_fs "''/home/u/a.txt''"
         "\<lparr>f_stat = Inr (3, 420), f_contents = \<lparr>chunks = [''abc''], rfault = None\<rparr>\<rparr>" 3 420] r3 f v
  have w3: "sent (stdin (snd (CopyFile plain_fs ''/home/u/a.txt'' ''/srv'' healthy_client))) =
       ''C0644 3 a.txt'' @ [CHR 0x0A] @ ''abc'' @ [CHR 0x00]"
    by simp
  from w1 w2 w3 show ?thesis by simp
qed

text \<open>
  The claim as first stated has every call that returns \<open>nil\<close> send the base name and
  exactly the announced number of payload bytes. With nothing failing,
  \<open>CopyWithFileMode\<close> sends the name \<open>dir/a.txt\<close> as given although its base name is
  \<open>a.txt\<close>, and \<open>CopyFile\<close> on a file that grew after \<open>Stat\<close> announces 3 bytes and
  sends 6.
\<close>

theorem copy_name_and_length_as_given:
  "fst (CopyWithFileMode 420 ''dir/a.txt'' ''/srv'' ''abc'' healthy_client) = None
   \<and> path_Base ''dir/a.txt'' = ''a.txt''
   \<and> sent (stdin (snd (CopyWithFileMode 420 ''dir/a.txt'' ''/srv'' ''abc'' healthy_client)))
       = ''C0644 3 dir/a.txt'' @ [CHR 0x0A] @ ''abc'' @ [CHR 0x00]
   \<and> fst (CopyFile grown_fs ''/var/log/app.log'' ''/srv'' healthy_client) = None
   \<and> sent (stdin (snd (CopyFile grown_fs ''/var/log/app.log'' ''/srv'' healthy_client)))
       = ''C0644 3 app.log'' @ [CHR 0x0A] @ ''abcdef'' @ [CHR 0x00]"
  by (simp add: CopyFile_def grown_fs_def path_Base_def copy_eval)

text \<open>
  \<^bold>\<open>Claim C1 (as amended).\<close> With mode \<open>0644\<close> (420), payload \<open>hello\<close> and name
  \<open>hello.txt\<close>, a call that returns \<open>nil\<close>, on which no write fails, on a fresh session
  writes exactly \<open>C0644 5 hello.txt\<close>, a newline, \<open>hello\<close> and one zero byte: the mode is
  printed with its leading \<open>0\<close>, not as \<open>644\<close>. The receiver of the wire format reads
  back mode \<open>0644\<close>, the name \<open>hello.txt\<close> and the five bytes \<open>hello\<close>.
\<close>

theorem copy_hello_wire_bytes:
  assumes ret: "CopyWithFileMode 420 ''hello.txt'' destinationPath ''hello'' conn = (None, conn')"
    and ok: "set (wfaults (stdin conn)) \<subseteq> {None}"
    and fresh: "sent (stdin conn) = []"
  shows "sent (stdin conn') = ''C0644 5 hello.txt'' @ [CHR 0x0A] @ ''hello'' @ [CHR 0x00]
         \<and> receive_copy (sent (stdin conn')) = Some (420, ''hello.txt'', ''hello'')"
proof -
  from ret have "u_copy 5 420 ''hello.txt'' destinationPath (bytes_NewReader ''hello'') conn
                   = (None, conn')"
    by (simp add: CopyWithFileMode_def)
  from u_copy_no_fault [OF this ok] fresh
  have "sent (stdin conn') = header_line 420 5 ''hello.txt'' @ ''hello'' @ [CHR 0x00]"
    by (simp add: bytes_NewReader_def)
  moreover have "header_line 420 5 ''hello.txt'' = ''C0644 5 hello.txt'' @ [CHR 0x0A]"
    by (simp add: copy_eval)
  ultimately have s: "sent (stdin conn') = ''C0644 5 hello.txt'' @ [CHR 0x0A] @ ''hello'' @ [CHR 0x00]"
    by simp
  have "receive_copy (''C0644 5 hello.txt'' @ [CHR 0x0A] @ ''hello'' @ [CHR 0x00])
          = Some (420, ''hello.txt'', ''hello'')"
    by (simp add: receive_copy_def digits_value_def digit_val_def)
  with s show ?thesis by simp
qed

theorem copy_hello_wire_bytes_witness:
  "sent (stdin (snd (CopyWithFileMode 420 ''hello.txt'' ''/tmp'' ''hello'' healthy_client))) =
     ''C0644 5 hello.txt'' @ [CHR 0x0A] @ ''hello'' @ [CHR 0x00]
   \<and> receive_copy (sent (stdin (snd (CopyWithFileMode 420 ''hello.txt'' ''/tmp'' ''hello'' healthy_client))))
       = Some (420, ''hello.txt'', ''hello'')"
proof -
  have ret: "CopyWithFileMode 420 ''hello.txt'' ''/tmp'' ''hello'' healthy_client =
               (None, snd (CopyWithFileMode 420 ''hello.txt'' ''/tmp'' ''hello'' healthy_client))"
    by (simp add: copy_eval)
  have ok: "set (wfaults (stdin healthy_client)) \<subseteq> {None}"
    and fresh: "sent (stdin healthy_client) = []"
    by (simp_all add: healthy_client_def)
  from copy_hello_wire_bytes [OF ret ok fresh] show ?thesis .
qed

text \<open>
  The claim as first stated asks for the header \<open>C644 5 hello.txt\<close>. On a client where
  nothing fails the call returns \<open>nil\<close> and the stream differs from that byte sequence.
\<close>

theorem copy_hello_header_is_not_C644:
  "fst (CopyWithFileMode 420 ''hello.txt'' ''/tmp'' ''hello'' healthy_client) = None
   \<and> sent (stdin (snd (CopyWithFileMode 420 ''hello.txt'' ''/tmp'' ''hello'' healthy_client)))
       \<noteq> ''C644 5 hello.txt'' @ [CHR 0x0A] @ ''hello'' @ [CHR 0x00]"
  by (simp add: copy_eval)

subsection \<open>Failures\<close>

text \<open>
  \<^bold>\<open>Claim C8 (the code at a failing input).\<close> On \<open>payload_fault_client\<close> the write
  of the payload fails with \<open>broken pipe\<close> after two bytes. \<open>io.Copy\<close> returns that
  error, \<open>_copy\<close> drops it, writes the zero byte, closes, and the caller receives \<open>nil\<close>
  for a stream that holds two of the five payload bytes.
\<close>

theorem copy_drops_payload_write_error:
  "fst (io_Copy (snd (pipe_Write (header_line 420 5 ''hello.txt'') (stdin payload_fault_client)))
          (chunks (bytes_NewReader ''hello'')) None) = Some ''broken pipe''
   \<and> fst (CopyWithFileMode 420 ''hello.txt'' ''/tmp'' ''hello'' payload_fault_client) = None
   \<and> sent (stdin (snd (CopyWithFileMode 420 ''hello.txt'' ''/tmp'' ''hello'' payload_fault_client)))
       = ''C0644 5 hello.txt'' @ [CHR 0x0A] @ ''he'' @ [CHR 0x00]"
  by (simp add: copy_eval payload_fault_client_def)

text \<open>
  The same dropped result hides a read error: \<open>CopyFile\<close> on a directory announces 4096
  bytes, sends none, and returns \<open>nil\<close>.
\<close>

lemma copyfile_drops_read_error:
  "fst (CopyFile dir_fs ''/data'' ''/backup'' healthy_client) = None
   \<and> sent (stdin (snd (CopyFile dir_fs ''/data'' ''/backup'' healthy_client)))
       = ''C0755 4096 data'' @ [CHR 0x0A] @ [CHR 0x00]"
  by (simp add: CopyFile_def dir_fs_def path_Base_def copy_eval)

text \<open>The errors \<open>_copy\<close> does check are returned as they are.\<close>

lemma u_copy_returns_session_error:
  "new_session_err conn = Some e \<Longrightarrow>
     u_copy sz mode fileName destination contents conn = (Some e, conn)"
  by (simp add: u_copy_def)

lemma u_copy_returns_start_error:
  "new_session_err conn = None \<Longrightarrow> start_err conn = Some e \<Longrightarrow>
     fst (u_copy sz mode fileName destination contents conn) = Some e"
  by (simp add: u_copy_def)

lemma u_copy_returns_header_error:
  "new_session_err conn = None \<Longrightarrow> start_err conn = None \<Longrightarrow>
   wfaults (stdin conn) = Some (k, e) # fs \<Longrightarrow>
     fst (u_copy sz mode fileName destination contents conn) = Some e"
  by (simp add: u_copy_def pipe_Write_def)

lemma u_copy_returns_close_error:
  assumes "new_session_err conn = None" "start_err conn = None"
    and "set (wfaults (stdin conn)) \<subseteq> {None}" and "cfault (stdin conn) = Some e"
  shows "fst (u_copy sz mode fileName destination contents conn) = Some e"
  using u_copy_returns_nil [OF assms(1-3)] assms(4) by simp

section \<open>Properties of the Forwarding Tunnel\<close>

text \<open>
  \<^bold>\<open>Claim C3 (the code at a failing input).\<close> The session opener returns an error
  for the accepted connection 7. The goroutine logs the error and, having no
  \<open>return\<close> after \<open>log.Error(err)\<close>, goes on to start all three copy goroutines, on
  \<open>nil\<close> streams.
\<close>

theorem forward_starts_copies_after_open_error:
  "forward_conn failing_forward () ''10.0.0.5'' 5432 7 =
     [TLogInfo ''Starting session...'',
      TLogError ''ssh: unexpected packet in response to channel open'',
      TGo (StdoutToLocal None 7), TGo (LocalToStdin 7 None), TGo (StderrToBuffer None)]"
  by (simp add: forward_conn_def failing_forward_def)

text \<open>Whatever the session opener returns, the three copies are started.\<close>

lemma forward_conn_always_starts_copies:
  "TGo (StdoutToLocal (fw_stdout (forwardFunc conn url port)) l) \<in> set (forward_conn forwardFunc conn url port l)
   \<and> TGo (LocalToStdin l (fw_stdin (forwardFunc conn url port))) \<in> set (forward_conn forwardFunc conn url port l)
   \<and> TGo (StderrToBuffer (fw_stderr (forwardFunc conn url port))) \<in> set (forward_conn forwardFunc conn url port l)"
  by (simp add: forward_conn_def Let_def)

section \<open>Properties of the Server Channel Handler\<close>

subsection \<open>Channel types\<close>

lemma handleChannels_append:
  "handleChannels (xs @ ys) = handleChannels xs @ handleChannels ys"
  by (induction xs) simp_all

text \<open>
  \<^bold>\<open>Claim C5.\<close> A channel whose declared type is not \<open>session\<close> is rejected with
  the reason \<open>UnknownChannelType\<close> and the message \<open>unknown channel type: \<close> followed
  by the type; it is not accepted and no goroutine is started for it. The loop of
  \<open>handleChannels\<close> goes on: the channels before and after it are handled as they
  would be without it.
\<close>

theorem unknown_channel_type_rejected:
  assumes "ChannelType nc \<noteq> ''session''"
  shows "handleChannel nc =
           \<lparr>events = [Reject UnknownChannelType (''unknown channel type: '' @ ChannelType nc)],
            spawned = [], panicked = False\<rparr>
         \<and> Accepted \<notin> set (events (handleChannel nc))
         \<and> handleChannels (earlier @ nc # later) =
             handleChannels earlier @ handleChannel nc # handleChannels later"
  using assms by (simp add: handleChannel_def handleChannels_append)

theorem unknown_channel_type_rejected_witness:
  "handleChannels
     [\<lparr>ChannelType = ''direct-tcpip'', accept_err = None, pty_err = None, wait_err = None\<rparr>,
      \<lparr>ChannelType = ''session'', accept_err = None, pty_err = None, wait_err = None\<rparr>]
   = [\<lparr>events = [Reject UnknownChannelType ''unknown channel type: direct-tcpip''],
       spawned = [], panicked = False\<rparr>,
      \<lparr>events = [Accepted, Log_Infof ''Creating pty...'', PtyStarted],
       spawned = [CopyPtyToChannel, CopyChannelToPty, ServeRequests], panicked = False\<rparr>]"
proof -
  have ne: "ChannelType \<lparr>ChannelType = ''direct-tcpip'', accept_err = None, pty_err = None,
              wait_err = None\<rparr> \<noteq> ''session''"
    by simp
  from unknown_channel_type_rejected [OF ne, of "[]"
         "[\<lparr>ChannelType = ''session'', accept_err = None, pty_err = None, wait_err = None\<rparr>]"]
  show ?thesis
    by (simp add: handleChannel_def)
qed

subsection \<open>The relay and its single-fire teardown\<close>

lemma copier_all: "(\<forall>t. P t) \<longleftrightarrow> P PtyToChannel \<and> P ChannelToPty"
  by (metis copier.exhaust)

lemma copier_ex: "(\<exists>t. P t) \<longleftrightarrow> P PtyToChannel \<or> P ChannelToPty"
  by (metis copier.exhaust)

lemma relay_inv_init: "relay_inv nc relay_init"
  by (simp add: relay_inv_def relay_init_def holds_mutex_def)

lemma relay_inv_step:
  assumes "relay_inv nc s" and "relay_step nc s s'"
  shows "relay_inv nc s'"
  using assms(2,1)
proof cases
  case (copy_ends t)
  with assms(1) show ?thesis
    by (cases t) (auto simp: relay_inv_def holds_mutex_def copier_all)
next
  case (fast_done t)
  with assms(1) show ?thesis
    by (cases t) (auto simp: relay_inv_def holds_mutex_def copier_all)
next
  case (fast_slow t)
  with assms(1) show ?thesis
    by (cases t) (auto simp: relay_inv_def holds_mutex_def copier_all)
next
  case (lock t)
  with assms(1) show ?thesis
    by (cases t) (auto simp: relay_inv_def holds_mutex_def copier_all)
next
  case (crit_run t)
  with assms(1) show ?thesis
    by (cases t) (auto simp: relay_inv_def holds_mutex_def copier_all)
next
  case (crit_skip t)
  with assms(1) show ?thesis
    by (cases t) (auto simp: relay_inv_def holds_mutex_def copier_all)
next
  case (store t)
  with assms(1) show ?thesis
    by (cases t) (auto simp: relay_inv_def holds_mutex_def copier_all)
next
  case (unlock t)
  with assms(1) show ?thesis
    by (cases t) (auto simp: relay_inv_def holds_mutex_def copier_all)
qed

lemma relay_inv_reachable: "relay_reachable nc s \<Longrightarrow> relay_inv nc s"
  by (induction rule: relay_reachable.induct) (auto intro: relay_inv_init relay_inv_step)

lemma teardowns_close_fn: "count_list (close_fn nc) ChannelClose = 1"
  by (simp add: close_fn_def split: option.splits)

lemma holder_can_step:
  assumes "holds_mutex (at s t)"
  shows "\<exists>s'. relay_step nc s s' \<and> at s' t \<noteq> at s t"
proof -
  from assms consider "at s t = OnceCrit" "\<not> once_done s" | "at s t = OnceCrit" "once_done s"
    | "at s t = OnceStore" | "at s t = OnceUnlock"
    by (auto simp: holds_mutex_def)
  then show ?thesis
  proof cases
    case 1
    then have "relay_step nc s (s\<lparr>at := (at s)(t := OnceStore), trace := trace s @ close_fn nc\<rparr>)"
      by (rule relay_step.crit_run)
    moreover from 1 have "at (s\<lparr>at := (at s)(t := OnceStore), trace := trace s @ close_fn nc\<rparr>) t \<noteq> at s t"
      by simp
    ultimately show ?thesis by blast
  next
    case 2
    then have "relay_step nc s (s\<lparr>at := (at s)(t := OnceUnlock)\<rparr>)"
      by (rule relay_step.crit_skip)
    moreover from 2 have "at (s\<lparr>at := (at s)(t := OnceUnlock)\<rparr>) t \<noteq> at s t"
      by simp
    ultimately show ?thesis by blast
  next
    case 3
    then have "relay_step nc s (s\<lparr>at := (at s)(t := OnceUnlock), once_done := True\<rparr>)"
      by (rule relay_step.store)
    moreover from 3 have "at (s\<lparr>at := (at s)(t := OnceUnlock), once_done := True\<rparr>) t \<noteq> at s t"
      by simp
    ultimately show ?thesis by blast
  next
    case 4
    then have "relay_step nc s (s\<lparr>at := (at s)(t := Finished), once_locked := False\<rparr>)"
      by (rule relay_step.unlock)
    moreover from 4 have "at (s\<lparr>at := (at s)(t := Finished), once_locked := False\<rparr>) t \<noteq> at s t"
      by simp
    ultimately show ?thesis by blast
  qed
qed

lemma once_Do_progress:
  assumes inv: "relay_inv nc s" and t: "in_Do (at s t)"
  shows "\<exists>u s'. in_Do (at s u) \<and> relay_step nc s s' \<and> at s' u \<noteq> at s u"
proof -
  from t consider "at s t = OnceFast" "once_done s" | "at s t = OnceFast" "\<not> once_done s"
    | "at s t = OnceLock" "\<not> once_locked s" | "at s t = OnceLock" "once_locked s"
    | "holds_mutex (at s t)"
    by (cases "at s t") (auto simp: in_Do_def holds_mutex_def)
  then show ?thesis
  proof cases
    case 1
    then have "relay_step nc s (s\<lparr>at := (at s)(t := Finished)\<rparr>)"
      by (rule relay_step.fast_done)
    moreover from 1 have "at (s\<lparr>at := (at s)(t := Finished)\<rparr>) t \<noteq> at s t"
      by simp
    ultimately show ?thesis using t by blast
  next
    case 2
    then have "relay_step nc s (s\<lparr>at := (at s)(t := OnceLock)\<rparr>)"
      by (rule relay_step.fast_slow)
    moreover from 2 have "at (s\<lparr>at := (at s)(t := OnceLock)\<rparr>) t \<noteq> at s t"
      by simp
    ultimately show ?thesis using t by blast
  next
    case 3
    then have "relay_step nc s (s\<lparr>at := (at s)(t := OnceCrit), once_locked := True\<rparr>)"
      by (rule relay_step.lock)
    moreover from 3 have "at (s\<lparr>at := (at s)(t := OnceCrit), once_locked := True\<rparr>) t \<noteq> at s t"
      by simp
    ultimately show ?thesis using t by blast
  next
    case 4
    with inv obtain u where u: "holds_mutex (at s u)"
      by (auto simp: relay_inv_def)
    then have "in_Do (at s u)"
      by (auto simp: in_Do_def holds_mutex_def)
    with holder_can_step [OF u, of nc] show ?thesis by blast
  next
    case 5
    with holder_can_step [OF 5, of nc] t show ?thesis by blast
  qed
qed

text \<open>
  \<^bold>\<open>Claim C4.\<close> In every state the two relay goroutines can reach, in whatever
  order their steps interleave: the teardown (close the channel, then wait for the
  shell) has run at most once; as soon as either goroutine has returned from
  \<open>once.Do\<close> it has run exactly once, and what it did is: close the channel, wait for
  the process, log the wait error if there is one, log \<open>Session closed\<close> (the error
  goes nowhere else); and \<open>once.Do\<close> cannot get stuck: while a goroutine is inside
  it, some goroutine inside it can take a step.
\<close>

theorem teardown_runs_exactly_once:
  assumes "relay_reachable nc s"
  shows "teardowns s \<le> 1
         \<and> (trace s = [] \<or> trace s = close_fn nc)
         \<and> ((\<exists>t. at s t = Finished) \<longrightarrow>
              teardowns s = 1 \<and>
              trace s = [ChannelClose, ProcessWait] @
                        (case wait_err nc of
                           Some e \<Rightarrow> [Log_Errorf (''Failed to exit bash ('' @ e @ '')'')]
                         | None \<Rightarrow> []) @
                        [Log_Infof ''Session closed''])
         \<and> ((\<exists>t. in_Do (at s t)) \<longrightarrow>
              (\<exists>u s'. in_Do (at s u) \<and> relay_step nc s s' \<and> at s' u \<noteq> at s u))"
proof -
  from assms have inv: "relay_inv nc s"
    by (rule relay_inv_reachable)
  then have tr: "trace s = [] \<or> trace s = close_fn nc"
    by (auto simp: relay_inv_def)
  then have le: "teardowns s \<le> 1"
    by (auto simp: teardowns_def teardowns_close_fn)
  have fin: "teardowns s = 1 \<and> trace s = close_fn nc" if "\<exists>t. at s t = Finished"
  proof -
    from that inv have "once_done s" by (auto simp: relay_inv_def)
    with inv have "trace s = close_fn nc" by (simp add: relay_inv_def)
    then show ?thesis by (simp add: teardowns_def teardowns_close_fn)
  qed
  have prog: "\<exists>u s'. in_Do (at s u) \<and> relay_step nc s s' \<and> at s' u \<noteq> at s u"
    if "\<exists>t. in_Do (at s t)"
    using that once_Do_progress [OF inv] by blast
  from tr le fin prog show ?thesis
    by (simp add: close_fn_def)
qed

text \<open>One run: the copy from the PTY ends and its \<open>once.Do\<close> runs to the end.\<close>

lemma relay_one_done_reachable: "relay_reachable nc (relay_one_done nc)"
proof -
  let ?s1 = "relay_init\<lparr>at := (at relay_init)(PtyToChannel := OnceFast)\<rparr>"
  let ?s2 = "?s1\<lparr>at := (at ?s1)(PtyToChannel := OnceLock)\<rparr>"
  let ?s3 = "?s2\<lparr>at := (at ?s2)(PtyToChannel := OnceCrit), once_locked := True\<rparr>"
  let ?s4 = "?s3\<lparr>at := (at ?s3)(PtyToChannel := OnceStore), trace := trace ?s3 @ close_fn nc\<rparr>"
  let ?s5 = "?s4\<lparr>at := (at ?s4)(PtyToChannel := OnceUnlock), once_done := True\<rparr>"
  let ?s6 = "?s5\<lparr>at := (at ?s5)(PtyToChannel := Finished), once_locked := False\<rparr>"
  have "relay_step nc relay_init ?s1"
    by (rule relay_step.copy_ends) (simp add: relay_init_def)
  with relay_reachable.start have r1: "relay_reachable nc ?s1"
    by (rule relay_reachable.step)
  have "relay_step nc ?s1 ?s2"
    by (rule relay_step.fast_slow) (simp_all add: relay_init_def)
  with r1 have r2: "relay_reachable nc ?s2"
    by (rule relay_reachable.step)
  have "relay_step nc ?s2 ?s3"
    by (rule relay_step.lock) (simp_all add: relay_init_def)
  with r2 have r3: "relay_reachable nc ?s3"
    by (rule relay_reachable.step)
  have "relay_step nc ?s3 ?s4"
    by (rule relay_step.crit_run) (simp_all add: relay_init_def)
  with r3 have r4: "relay_reachable nc ?s4"
    by (rule relay_reachable.step)
  have "relay_step nc ?s4 ?s5"
    by (rule relay_step.store) (simp_all add: relay_init_def)
  with r4 have r5: "relay_reachable nc ?s5"
    by (rule relay_reachable.step)
  have "relay_step nc ?s5 ?s6"
    by (rule relay_step.unlock) (simp_all add: relay_init_def)
  with r5 have r6: "relay_reachable nc ?s6"
    by (rule relay_reachable.step)
  have "?s6 = relay_one_done nc"
    by (simp add: relay_init_def relay_one_done_def)
  with r6 show ?thesis by simp
qed

theorem teardown_runs_exactly_once_witness:
  "teardowns (relay_one_done \<lparr>ChannelType = ''session'', accept_err = None, pty_err = None,
                               wait_err = Some ''exit status 1''\<rparr>) = 1
   \<and> trace (relay_one_done \<lparr>ChannelType = ''session'', accept_err = None, pty_err = None,
                             wait_err = Some ''exit status 1''\<rparr>)
       = [ChannelClose, ProcessWait, Log_Errorf ''Failed to exit bash (exit status 1)'',
          Log_Infof ''Session closed'']"
proof -
  let ?nc = "\<lparr>ChannelType = ''session'', accept_err = None, pty_err = None,
              wait_err = Some ''exit status 1''\<rparr>"
  have "\<exists>t. at (relay_one_done ?nc) t = Finished"
    by (rule exI [of _ PtyToChannel]) (simp add: relay_one_done_def)
  with teardown_runs_exactly_once [OF relay_one_done_reachable, of ?nc] show ?thesis
    by simp
qed

text \<open>
  When the PTY cannot be started, \<open>handleChannel\<close> calls the teardown closure itself:
  the channel is closed once, the wait on the shell that never started panics, and no
  goroutine is started.
\<close>

lemma pty_failure_closes_and_panics:
  assumes "ChannelType nc = ''session''" "accept_err nc = None" "pty_err nc = Some e"
  shows "count_list (events (handleChannel nc)) ChannelClose = 1
         \<and> spawned (handleChannel nc) = [] \<and> panicked (handleChannel nc)"
  using assms by (simp add: handleChannel_def)

subsection \<open>Decoding big-endian numbers\<close>

lemma or_to_add:
  fixes b0 b1 b2 b3 :: byte
  shows "(ucast b3 OR push_bit 8 (ucast b2) OR push_bit 16 (ucast b1) OR push_bit 24 (ucast b0) :: 32 word)
       = ucast b3 + (push_bit 8 (ucast b2) + (push_bit 16 (ucast b1) + push_bit 24 (ucast b0)))"
proof -
  have 1: "(push_bit 16 (ucast b1) :: 32 word) AND push_bit 24 (ucast b0) = 0"
    by (rule bit_word_eqI) (auto simp: bit_simps dest: bit_imp_le_length)
  have 2: "(push_bit 8 (ucast b2) :: 32 word) AND (push_bit 16 (ucast b1) OR push_bit 24 (ucast b0)) = 0"
    by (rule bit_word_eqI) (auto simp: bit_simps dest: bit_imp_le_length)
  have 3: "(ucast b3 :: 32 word) AND (push_bit 8 (ucast b2) OR (push_bit 16 (ucast b1) OR push_bit 24 (ucast b0))) = 0"
    by (rule bit_word_eqI) (auto simp: bit_simps dest: bit_imp_le_length)
  show ?thesis
    by (simp add: disjunctive_add_eq_or [OF 1] disjunctive_add_eq_or [OF 2] disjunctive_add_eq_or [OF 3] or.assoc)
qed

lemma Uint32_value:
  "Uint32 (b0 # b1 # b2 # b3 # rest) = Returns (word_of_nat (be_value [b0, b1, b2, b3]))"
proof -
  have "(ucast b3 + (push_bit 8 (ucast b2) + (push_bit 16 (ucast b1) + push_bit 24 (ucast b0))) :: 32 word)
      = word_of_nat (((unat b0 * 256 + unat b1) * 256 + unat b2) * 256 + unat b3)"
    by (simp add: push_bit_eq_mult algebra_simps)
  then show ?thesis
    by (simp add: Uint32_def be_value_def or_to_add)
qed

lemma be_value_4_bound: "be_value [b0, b1, b2, b3] < 2 ^ 32"
proof -
  have "unat b0 < 256" "unat b1 < 256" "unat b2 < 256" "unat b3 < 256"
    using unsigned_less [of b0, where 'a = nat] unsigned_less [of b1, where 'a = nat]
      unsigned_less [of b2, where 'a = nat] unsigned_less [of b3, where 'a = nat] by simp_all
  then show ?thesis by (simp add: be_value_def)
qed

lemma unat_Uint32:
  "Uint32 (b0 # b1 # b2 # b3 # rest) = Returns w \<Longrightarrow> unat w = be_value [b0, b1, b2, b3]"
  using be_value_4_bound [of b0 b1 b2 b3]
  by (auto simp: Uint32_value unat_of_nat)

lemma Uint32_be_bytes: "Uint32 (be_bytes v @ rest) = Returns v"
proof -
  have "(ucast (ucast v :: byte) OR push_bit 8 (ucast (ucast (drop_bit 8 v) :: byte)) OR
         push_bit 16 (ucast (ucast (drop_bit 16 v) :: byte)) OR
         push_bit 24 (ucast (ucast (drop_bit 24 v) :: byte)) :: 32 word) = v"
  proof (rule bit_word_eqI)
    fix n :: nat
    assume "n < LENGTH(32)"
    then have n: "n < 32" by simp
    consider "n < 8" | "8 \<le> n" "n < 16" | "16 \<le> n" "n < 24" | "24 \<le> n"
      by linarith
    then show "bit (ucast (ucast v :: byte) OR push_bit 8 (ucast (ucast (drop_bit 8 v) :: byte)) OR
         push_bit 16 (ucast (ucast (drop_bit 16 v) :: byte)) OR
         push_bit 24 (ucast (ucast (drop_bit 24 v) :: byte)) :: 32 word) n = bit v n"
      using n by cases (auto simp: bit_simps)
  qed
  then show ?thesis
    by (simp add: Uint32_def be_bytes_def)
qed

lemma Uint32_take:
  assumes "4 \<le> length b"
  shows "Uint32 b = Returns (word_of_nat (be_value (take 4 b)))"
proof -
  from assms have "Suc (Suc (Suc (Suc 0))) \<le> length b" by simp
  then obtain b0 b1 b2 b3 rest where b: "b = b0 # b1 # b2 # b3 # rest"
    by (auto simp: Suc_le_length_iff)
  show ?thesis unfolding b by (simp add: Uint32_value)
qed

lemma Uint32_short: "length b < 4 \<Longrightarrow> Uint32 b = Panics"
  by (simp add: Uint32_def)

lemma parseDims_long:
  assumes "8 \<le> length b"
  shows "parseDims b = Returns (word_of_nat (be_value (take 4 b)), word_of_nat (be_value (take 4 (drop 4 b))))"
  using assms by (simp add: parseDims_def Uint32_take)

lemma parseDims_short: "length b < 8 \<Longrightarrow> parseDims b = Panics"
  by (cases "length b < 4") (simp_all add: parseDims_def Uint32_def)

lemma parseDims_be_bytes: "parseDims (be_bytes w @ be_bytes h @ rest) = Returns (w, h)"
proof -
  have "drop 4 (be_bytes w @ be_bytes h @ rest) = be_bytes h @ rest"
    by (simp add: be_bytes_def)
  then show ?thesis
    by (simp add: parseDims_def Uint32_be_bytes) (simp add: be_bytes_def)
qed

subsection \<open>Terminal geometry\<close>

lemma ucast_word_of_nat_16: "(ucast (word_of_nat n :: 32 word) :: 16 word) = word_of_nat n"
  by (rule bit_word_eqI) (auto simp: bit_simps)

text \<open>
  \<^bold>\<open>Claim C7 (as amended).\<close> For a \<open>window-change\<close> request whose payload has at
  least eight bytes, the handler reads the width as the big-endian number in bytes 0 to 3
  and the height as the big-endian number in bytes 4 to 7, and the only thing it does is
  the \<open>TIOCSWINSZ\<close> ioctl on the PTY with these two values in the 16-bit fields of
  \<open>Winsize\<close>, that is modulo \<open>2^16\<close>: there is no reply. For the payload
  \<open>00 00 00 78 00 00 00 28\<close> the PTY receives exactly width 120 and height 40.
\<close>

theorem window_change_applies_dims:
  assumes "Type req = ''window-change''" and "8 \<le> length (Payload req)"
  shows "handle_request req =
           Returns [Ioctl_TIOCSWINSZ
                      \<lparr>Height = word_of_nat (be_value (take 4 (drop 4 (Payload req)))),
                       Width = word_of_nat (be_value (take 4 (Payload req))),
                       unused_x = 0, unused_y = 0\<rparr>]
         \<and> unat (word_of_nat (be_value (take 4 (Payload req))) :: 16 word)
             = be_value (take 4 (Payload req)) mod 2 ^ 16
         \<and> unat (word_of_nat (be_value (take 4 (drop 4 (Payload req)))) :: 16 word)
             = be_value (take 4 (drop 4 (Payload req))) mod 2 ^ 16"
  using assms
  by (simp add: handle_request_def parseDims_long SetWinsize_def ucast_word_of_nat_16 unat_of_nat)

theorem window_change_applies_dims_witness:
  "handle_request \<lparr>Type = ''window-change'', Payload = [0x00, 0x00, 0x00, 0x78, 0x00, 0x00, 0x00, 0x28]\<rparr>
     = Returns [Ioctl_TIOCSWINSZ \<lparr>Height = 40, Width = 120, unused_x = 0, unused_y = 0\<rparr>]"
proof -
  let ?req = "\<lparr>Type = ''window-change'', Payload = [0x00, 0x00, 0x00, 0x78, 0x00, 0x00, 0x00, 0x28 :: byte]\<rparr>"
  have t: "Type ?req = ''window-change''" and l: "8 \<le> length (Payload ?req)"
    by simp_all
  from window_change_applies_dims [OF t l] show ?thesis
    by (simp add: be_value_def)
qed

text \<open>
  The claim as first stated covers every \<open>window-change\<close> request and has the decoded
  values applied. A payload of four bytes makes the handler panic, and for the decoded
  width 65656 the PTY receives the width 120.
\<close>

theorem window_change_short_or_wide:
  "handle_request \<lparr>Type = ''window-change'', Payload = [0x00, 0x00, 0x00, 0x78]\<rparr> = Panics
   \<and> be_value [0x00, 0x01, 0x00, 0x78] = 65656
   \<and> handle_request \<lparr>Type = ''window-change'', Payload = [0x00, 0x01, 0x00, 0x78, 0x00, 0x00, 0x00, 0x28]\<rparr>
       = Returns [Ioctl_TIOCSWINSZ \<lparr>Height = 40, Width = 120, unused_x = 0, unused_y = 0\<rparr>]"
  by (simp add: handle_request_def parseDims_def Uint32_def SetWinsize_def be_value_def)

text \<open>
  \<^bold>\<open>Claim C9.\<close> Whenever a request makes the handler set the terminal geometry,
  the \<open>Winsize\<close> handed to the ioctl holds the decoded 32-bit width and height modulo
  \<open>2^16\<close>, and the request produces nothing but that ioctl and (for \<open>pty-req\<close>) the
  affirmative reply: no log entry, no error. The witness is a \<open>window-change\<close> to
  width 70000, which reaches the PTY as 4464.
\<close>

theorem geometry_narrowed_to_16_bits:
  assumes ret: "handle_request req = Returns evs" and ev: "Ioctl_TIOCSWINSZ ws \<in> set evs"
  shows "\<exists>w h. parseDims (drop (dims_offset req) (Payload req)) = Returns (w, h)
           \<and> unat (Width ws) = unat w mod 2 ^ 16 \<and> unat (Height ws) = unat h mod 2 ^ 16
           \<and> set evs \<subseteq> {Ioctl_TIOCSWINSZ ws, Reply True}"
  using assms
  by (auto simp: handle_request_def dims_offset_def SetWinsize_def Let_def unsigned_ucast_eq take_bit_eq_mod
           split: if_splits go.splits)

theorem geometry_narrowed_to_16_bits_witness:
  "\<exists>w h. parseDims [0x00, 0x01, 0x11, 0x70, 0x00, 0x00, 0x00, 0x28] = Returns (w, h)
         \<and> unat (4464 :: 16 word) = unat w mod 2 ^ 16 \<and> unat (40 :: 16 word) = unat h mod 2 ^ 16"
proof -
  let ?req = "\<lparr>Type = ''window-change'', Payload = [0x00, 0x01, 0x11, 0x70, 0x00, 0x00, 0x00, 0x28 :: byte]\<rparr>"
  let ?ws = "\<lparr>Height = 40, Width = 4464, unused_x = 0, unused_y = 0\<rparr> :: Winsize"
  have ret: "handle_request ?req = Returns [Ioctl_TIOCSWINSZ ?ws]"
    by (simp add: handle_request_def parseDims_def Uint32_def SetWinsize_def)
  have ev: "Ioctl_TIOCSWINSZ ?ws \<in> set [Ioctl_TIOCSWINSZ ?ws]"
    by simp
  from geometry_narrowed_to_16_bits [OF ret ev] show ?thesis
    by (simp add: dims_offset_def)
qed

text \<open>
  \<^bold>\<open>Claim C6 (the code at a failing input).\<close> A \<open>pty-req\<close> payload with a term
  name of 252 bytes (length field \<open>00 00 00 FC\<close>), then width 80 and height 24. The
  handler reads the length from byte 3 alone and adds 4 in 8 bits: 252 + 4 wraps to 0, the
  dimensions are read from offset 0, and the PTY is set to width 252 (the length field)
  and height \<open>0x6161\<close> (term name bytes) instead of 80 and 24.
\<close>

theorem pty_req_long_term_name_misparsed:
  "handle_request
     \<lparr>Type = ''pty-req'',
      Payload = [0x00, 0x00, 0x00, 0xFC] @ replicate 252 0x61 @
                [0x00, 0x00, 0x00, 0x50] @ [0x00, 0x00, 0x00, 0x18]\<rparr>
   = Returns [Ioctl_TIOCSWINSZ \<lparr>Height = 0x6161, Width = 252, unused_x = 0, unused_y = 0\<rparr>,
              Reply True]"
  by (simp add: handle_request_def parseDims_def Uint32_def SetWinsize_def nth_append)

text \<open>
  With a term name of 256 bytes byte 3 of the length field is 0: the dimensions are read
  from offset 4, out of the term name.
\<close>

lemma pty_req_256_byte_term_name_misparsed:
  "handle_request
     \<lparr>Type = ''pty-req'',
      Payload = [0x00, 0x00, 0x01, 0x00] @ replicate 256 0x61 @
                [0x00, 0x00, 0x00, 0x50] @ [0x00, 0x00, 0x00, 0x18]\<rparr>
   = Returns [Ioctl_TIOCSWINSZ \<lparr>Height = 0x6161, Width = 0x6161, unused_x = 0, unused_y = 0\<rparr>,
              Reply True]"
  by (simp add: handle_request_def parseDims_def Uint32_def SetWinsize_def nth_append)

text \<open>
  For term names of at most 251 bytes the handler does skip the prefix: it decodes the
  width and the height that follow the name, applies them and replies \<open>true\<close>.
\<close>

lemma termLen_plus_4:
  fixes termLen :: byte
  assumes "unat termLen \<le> 251"
  shows "unat (termLen + 4) = unat termLen + 4"
  using assms by (simp add: unat_word_ariths)

lemma pty_req_short_term_name:
  assumes t: "Type req = ''pty-req''"
    and p: "Payload req = be_bytes L @ term @ be_bytes w @ be_bytes h @ rest"
    and L: "unat L = length term" and short: "length term \<le> 251"
  shows "handle_request req = Returns [SetWinsize w h, Reply True]"
proof -
  have b3: "Payload req ! 3 = ucast L"
    by (simp add: p be_bytes_def)
  from L short have "unat L < 256" by simp
  then have "unat (ucast L :: byte) = unat L"
    by (simp add: unsigned_ucast_eq take_bit_nat_eq_self)
  with L short have off: "unat (ucast L + 4 :: byte) = length term + 4"
    by (simp add: termLen_plus_4)
  have len: "length (be_bytes L) = 4"
    by (simp add: be_bytes_def)
  have "drop (length term + 4) (Payload req) = be_bytes w @ be_bytes h @ rest"
    by (simp add: p len)
  with t b3 off show ?thesis
    by (simp add: handle_request_def Let_def parseDims_be_bytes p len)
qed

text \<open>
  \<^bold>\<open>Claim C10 (as amended).\<close> The handler indexes the payload unchecked. A
  \<open>window-change\<close> request with fewer than 8 payload bytes panics. A \<open>pty-req\<close> request
  panics when its payload has fewer than 4 bytes, and when byte 3 of the payload
  (\<open>termLen\<close>) is at most 251 and the payload has fewer than \<open>termLen + 12\<close> bytes.
\<close>

theorem short_payload_panics:
  "(Type req = ''window-change'' \<and> length (Payload req) < 8 \<longrightarrow> handle_request req = Panics)
   \<and> (Type req = ''pty-req'' \<and> length (Payload req) < 4 \<longrightarrow> handle_request req = Panics)
   \<and> (Type req = ''pty-req'' \<and> 4 \<le> length (Payload req) \<and> unat (Payload req ! 3) \<le> 251
        \<and> length (Payload req) < unat (Payload req ! 3) + 12 \<longrightarrow> handle_request req = Panics)"
proof (intro conjI impI)
  assume "Type req = ''window-change'' \<and> length (Payload req) < 8"
  then show "handle_request req = Panics"
    by (simp add: handle_request_def parseDims_short)
next
  assume "Type req = ''pty-req'' \<and> length (Payload req) < 4"
  then show "handle_request req = Panics"
    by (simp add: handle_request_def)
next
  assume a: "Type req = ''pty-req'' \<and> 4 \<le> length (Payload req) \<and> unat (Payload req ! 3) \<le> 251
        \<and> length (Payload req) < unat (Payload req ! 3) + 12"
  then have off: "unat (Payload req ! 3 + 4) = unat (Payload req ! 3) + 4"
    by (simp add: termLen_plus_4)
  show "handle_request req = Panics"
  proof (cases "length (Payload req) < unat (Payload req ! 3) + 4")
    case True
    with a off show ?thesis by (simp add: handle_request_def Let_def)
  next
    case False
    with a have "length (Payload req) - (unat (Payload req ! 3) + 4) < 8"
      by linarith
    then have "length (drop (unat (Payload req ! 3) + 4) (Payload req)) < 8"
      by simp
    then have "parseDims (drop (unat (Payload req ! 3) + 4) (Payload req)) = Panics"
      by (rule parseDims_short)
    with a off False show ?thesis by (simp add: handle_request_def Let_def)
  qed
qed

theorem short_payload_panics_witness:
  "handle_request \<lparr>Type = ''window-change'', Payload = [0x00, 0x00, 0x00, 0x78, 0x00, 0x00, 0x00]\<rparr> = Panics
   \<and> handle_request \<lparr>Type = ''pty-req'', Payload = [0x00, 0x00, 0x00]\<rparr> = Panics
   \<and> handle_request \<lparr>Type = ''pty-req'',
        Payload = [0x00, 0x00, 0x00, 0x05, 0x78, 0x74, 0x65, 0x72, 0x6D, 0x00, 0x00, 0x00, 0x50]\<rparr> = Panics"
  using short_payload_panics [of "\<lparr>Type = ''window-change'', Payload = [0x00, 0x00, 0x00, 0x78, 0x00, 0x00, 0x00]\<rparr>"]
    short_payload_panics [of "\<lparr>Type = ''pty-req'', Payload = [0x00, 0x00, 0x00]\<rparr>"]
    short_payload_panics [of "\<lparr>Type = ''pty-req'',
        Payload = [0x00, 0x00, 0x00, 0x05, 0x78, 0x74, 0x65, 0x72, 0x6D, 0x00, 0x00, 0x00, 0x50]\<rparr>"]
  by simp

text \<open>
  The claim as first stated has every \<open>pty-req\<close> payload shorter than \<open>termLen + 12\<close>
  panic. With \<open>termLen = 252\<close> the offset \<open>termLen+4\<close> wraps to 0, and a payload of 8
  bytes (fewer than 264) is decoded without a panic.
\<close>

theorem wrapped_offset_does_not_panic:
  "length [0x00, 0x00, 0x00, 0xFC, 0x00, 0x00, 0x00, 0x00 :: byte]
     < unat ([0x00, 0x00, 0x00, 0xFC, 0x00, 0x00, 0x00, 0x00 :: byte] ! 3) + 12
   \<and> handle_request \<lparr>Type = ''pty-req'', Payload = [0x00, 0x00, 0x00, 0xFC, 0x00, 0x00, 0x00, 0x00]\<rparr>
       = Returns [Ioctl_TIOCSWINSZ \<lparr>Height = 0, Width = 252, unused_x = 0, unused_y = 0\<rparr>, Reply True]"
  by (simp add: handle_request_def parseDims_def Uint32_def SetWinsize_def)

text \<open>A panic ends the request loop: the requests behind it are not served.\<close>

lemma panic_ends_request_loop:
  "handle_request req = Panics \<Longrightarrow> serve_requests (req # reqs) = Panics"
  by simp

end
